theory Spec2Isabelle
  imports Main "HOL-Library.Sublist" "HOL-Library.Word"
begin

section \<open>The GA nurse jobs scanner (\<open>scraper.py\<close>)\<close>

text \<open>
  A shallow embedding of \<open>scraper.py\<close>. Python strings are \<open>string\<close>, a dictionary
  whose keys may be absent is a record of \<open>option\<close> fields or a map, and everything the
  script takes from outside (the process environment, the HTTP responses of the job-search
  provider, the clock, the seen-jobs file) is an explicit argument.
\<close>

subsection \<open>The Python runtime\<close>

text \<open>
  The library functions the script calls are not part of the repository; they are taken
  as parameters:
  \<^item> \<open>sha256_hexdigest s\<close> is \<open>hashlib.sha256(s.encode()).hexdigest()\<close>;
  \<^item> \<open>str_lower s\<close> is \<open>s.lower()\<close>;
  \<^item> \<open>int_of_str s\<close> is \<open>int(s)\<close>, with \<open>None\<close> where Python raises \<open>ValueError\<close>.
\<close>

record runtime =
  sha256_hexdigest :: "string \<Rightarrow> string"
  str_lower :: "string \<Rightarrow> string"
  int_of_str :: "string \<Rightarrow> int option"

subsection \<open>Data\<close>

text \<open>
  A raw result record of the provider: a JSON object in which every key may be absent.
  Present values have the provider's types: strings, a list of apply options (objects with
  an optional \<open>link\<close>), and a dictionary of detected extensions.
\<close>

type_synonym extensions = "(string \<times> string) list"

record apply_option =
  link :: "string option"

record raw_job =
  raw_title :: "string option"
  raw_company_name :: "string option"
  raw_location :: "string option"
  raw_description :: "string option"
  raw_detected_extensions :: "extensions option"
  raw_apply_options :: "apply_option list option"
  raw_share_link :: "string option"
  raw_via :: "string option"

text \<open>
  The dictionary built by \<open>normalize_job\<close> has exactly eight keys; \<open>run_scan\<close> then adds
  the key \<open>"id"\<close> (field \<open>id'\<close> of the extended record).
\<close>

record job =
  title :: string
  company_name :: string
  location :: string
  description_snippet :: string
  detected_extensions :: extensions
  apply_link :: string
  via :: string
  scraped_at :: string

record idjob = job +
  id' :: string

subsection \<open>\<open>job_id\<close>\<close>

text \<open>
  \<open>job_id\<close> reads its argument with \<open>job.get(key, '')\<close>, so it is defined on the
  string-valued entries of a dictionary, where a key may be absent. \<open>job_dict\<close> gives
  these entries for a job record.
\<close>

type_synonym pydict = "string \<rightharpoonup> string"

definition dict_get :: "pydict \<Rightarrow> string \<Rightarrow> string \<Rightarrow> string" where
  "dict_get d k dflt = (case d k of None \<Rightarrow> dflt | Some v \<Rightarrow> v)"

definition job_id :: "runtime \<Rightarrow> pydict \<Rightarrow> string" where
  "job_id rt job =
     (let raw = dict_get job ''title'' '''' @ ''-'' @ dict_get job ''company_name'' ''''
                @ ''-'' @ dict_get job ''location'' ''''
      in take 12 (sha256_hexdigest rt raw))"

definition job_dict :: "'a job_scheme \<Rightarrow> pydict" where
  "job_dict j =
     [''title'' \<mapsto> title j, ''company_name'' \<mapsto> company_name j,
      ''location'' \<mapsto> location j, ''description_snippet'' \<mapsto> description_snippet j,
      ''apply_link'' \<mapsto> apply_link j, ''via'' \<mapsto> via j, ''scraped_at'' \<mapsto> scraped_at j]"

subsection \<open>\<open>normalize_job\<close>\<close>

text \<open>
  \<open>now\<close> is the value of \<open>datetime.now(timezone.utc).isoformat()\<close> at the call.
  \<open>raw.get("apply_options")\<close> is truthy for a non-empty list, \<open>raw.get("share_link")\<close>
  for a non-empty string.
\<close>

definition normalize_job :: "string \<Rightarrow> raw_job \<Rightarrow> job" where
  "normalize_job now raw =
     (let apply_link =
            (case raw_apply_options raw of
               Some (opt # _) \<Rightarrow> (case link opt of None \<Rightarrow> '''' | Some l \<Rightarrow> l)
             | _ \<Rightarrow>
               (case raw_share_link raw of
                  Some (c # cs) \<Rightarrow> c # cs
                | _ \<Rightarrow> ''''))
      in \<lparr> title = (case raw_title raw of None \<Rightarrow> ''Unknown'' | Some t \<Rightarrow> t),
           company_name = (case raw_company_name raw of None \<Rightarrow> ''Unknown'' | Some c \<Rightarrow> c),
           location = (case raw_location raw of None \<Rightarrow> '''' | Some l \<Rightarrow> l),
           description_snippet = take 500 (case raw_description raw of None \<Rightarrow> '''' | Some d \<Rightarrow> d),
           detected_extensions = (case raw_detected_extensions raw of None \<Rightarrow> [] | Some e \<Rightarrow> e),
           apply_link = apply_link,
           via = (case raw_via raw of None \<Rightarrow> '''' | Some v \<Rightarrow> v),
           scraped_at = now \<rparr>)"

subsection \<open>Configuration and the outside world\<close>

text \<open>
  \<open>CONFIG\<close> is the parsed \<open>config.yaml\<close>; the script reads it with
  \<open>CONFIG.get(key, default)\<close>, so every key may be absent.
\<close>

record config_location =
  search_string :: string

record config =
  locations :: "config_location list option"
  search_queries :: "string list option"
  "keywords" :: "string list option"
  email_enabled :: "bool option"
  page_url :: "string option"

text \<open>
  The answer to one \<open>requests.get\<close>: any exception inside the \<open>try\<close> block
  (network failure, error status, a body that is not a JSON object) is \<open>RequestFailed\<close>;
  otherwise the body is a JSON object whose key \<open>jobs_results\<close> may be absent.
\<close>

datatype http_result = RequestFailed | JsonBody "raw_job list option"

text \<open>
  The world of one run: \<open>os.environ\<close>, the provider's answer to the \<open>n\<close>-th search of
  the run (given the API key, the query and the location), the clock's answer to the
  \<open>n\<close>-th reading of the run, the exception text of the SMTP session if it fails, and
  the rendering of \<open>templates/email.html\<close> (the template is not part of the sources).
\<close>

record world =
  environ :: pydict
  http_get :: "nat \<Rightarrow> string \<Rightarrow> string \<Rightarrow> string \<Rightarrow> http_result"
  utc_now :: "nat \<Rightarrow> string"
  smtp_failure :: "string option"
  render_email :: "idjob list \<Rightarrow> idjob list \<Rightarrow> string"

definition SERPAPI_KEY :: "world \<Rightarrow> string" where
  "SERPAPI_KEY w = dict_get (environ w) ''SERPAPI_KEY'' ''''"

subsection \<open>The seen-jobs file\<close>

text \<open>
  \<open>data/seen_jobs.json\<close> is absent, or does not parse (\<open>json.loads\<close> raises), or holds
  a JSON object of strings.
\<close>

datatype seen_file = NoFile | Malformed | JsonObject pydict

datatype error = JSONDecodeError | ValueError

definition load_seen :: "seen_file \<Rightarrow> error + pydict" where
  "load_seen f = (case f of NoFile \<Rightarrow> Inr Map.empty
                          | Malformed \<Rightarrow> Inl JSONDecodeError
                          | JsonObject m \<Rightarrow> Inr m)"

definition save_seen :: "pydict \<Rightarrow> seen_file" where
  "save_seen seen = JsonObject seen"

subsection \<open>\<open>search_serpapi\<close>\<close>

definition search_serpapi :: "world \<Rightarrow> nat \<Rightarrow> string \<Rightarrow> string \<Rightarrow> raw_job list" where
  "search_serpapi w n query loc =
     (if SERPAPI_KEY w = '''' then []
      else (case http_get w n (SERPAPI_KEY w) query loc of
              RequestFailed \<Rightarrow> []
            | JsonBody None \<Rightarrow> []
            | JsonBody (Some rs) \<Rightarrow> rs))"

subsection \<open>The keyword filter (\<open>run_scan\<close>, lines 104 to 106)\<close>

text \<open>\<open>starts_with p s\<close> is \<open>s.startswith(p)\<close>, \<open>contains p s\<close> is \<open>p in s\<close>.\<close>

fun starts_with :: "'a list \<Rightarrow> 'a list \<Rightarrow> bool" where
  "starts_with [] s = True"
| "starts_with (p # ps) [] = False"
| "starts_with (p # ps) (c # cs) = (p = c \<and> starts_with ps cs)"

fun contains :: "'a list \<Rightarrow> 'a list \<Rightarrow> bool" where
  "contains p [] = (p = [])"
| "contains p (c # cs) = (starts_with p (c # cs) \<or> contains p cs)"

primrec py_any :: "bool list \<Rightarrow> bool" where
  "py_any [] = False"
| "py_any (b # bs) = (b \<or> py_any bs)"

definition keyword_match :: "runtime \<Rightarrow> config \<Rightarrow> 'a job_scheme \<Rightarrow> bool" where
  "keyword_match rt cfg j =
     (let combined = str_lower rt (title j @ '' '' @ description_snippet j)
      in py_any (map (\<lambda>kw. contains (str_lower rt kw) combined)
                     (case keywords cfg of None \<Rightarrow> [] | Some ks \<Rightarrow> ks)))"

subsection \<open>\<open>run_scan\<close>\<close>

text \<open>
  The state of the loops: the three variables \<open>seen\<close>, \<open>all_jobs\<close>, \<open>new_jobs\<close>, and two
  counters that number the searches and the readings of the clock. The \<open>print\<close> calls
  are left out.
\<close>

record scan_state =
  seen :: pydict
  all_jobs :: "idjob list"
  new_jobs :: "idjob list"
  searches :: nat
  clock_reads :: nat

text \<open>Lines 108 to 111: a job that passed the filter.\<close>

definition record_job :: "scan_state \<Rightarrow> idjob \<Rightarrow> scan_state" where
  "record_job st j =
     (let st1 = st\<lparr>all_jobs := all_jobs st @ [j]\<rparr>
      in if seen st1 (id' j) = None
         then st1\<lparr>seen := (seen st1)(id' j \<mapsto> scraped_at j), new_jobs := new_jobs st1 @ [j]\<rparr>
         else st1)"

text \<open>Lines 100 to 111: the body of the innermost loop.\<close>

definition process_raw :: "runtime \<Rightarrow> config \<Rightarrow> world \<Rightarrow> scan_state \<Rightarrow> raw_job \<Rightarrow> scan_state" where
  "process_raw rt cfg w st raw =
     (let j = normalize_job (utc_now w (clock_reads st)) raw;
          st1 = st\<lparr>clock_reads := Suc (clock_reads st)\<rparr>;
          jid = job_id rt (job_dict j);
          j' = job.extend j (idjob.fields jid)
      in if \<not> keyword_match rt cfg j' then st1 else record_job st1 j')"

text \<open>Lines 95 to 111: one (location, query) pair.\<close>

definition scan_query ::
  "runtime \<Rightarrow> config \<Rightarrow> world \<Rightarrow> config_location \<Rightarrow> scan_state \<Rightarrow> string \<Rightarrow> scan_state" where
  "scan_query rt cfg w loc st q =
     (let results = search_serpapi w (searches st) q (search_string loc)
      in foldl (process_raw rt cfg w) (st\<lparr>searches := Suc (searches st)\<rparr>) results)"

definition scan_location ::
  "runtime \<Rightarrow> config \<Rightarrow> world \<Rightarrow> scan_state \<Rightarrow> config_location \<Rightarrow> scan_state" where
  "scan_location rt cfg w st loc =
     foldl (scan_query rt cfg w loc) st
           (case search_queries cfg of None \<Rightarrow> [] | Some qs \<Rightarrow> qs)"

text \<open>Lines 90 to 111: the state after the loops, from the loaded seen-set.\<close>

definition scan :: "runtime \<Rightarrow> config \<Rightarrow> world \<Rightarrow> pydict \<Rightarrow> scan_state" where
  "scan rt cfg w seen0 =
     foldl (scan_location rt cfg w)
           \<lparr>seen = seen0, all_jobs = [], new_jobs = [], searches = 0, clock_reads = 0\<rparr>
           (case locations cfg of None \<Rightarrow> [] | Some ls \<Rightarrow> ls)"

text \<open>Lines 114 to 119: the deduplication loop over \<open>all_jobs\<close>.\<close>

definition dedup_step :: "string set \<times> idjob list \<Rightarrow> idjob \<Rightarrow> string set \<times> idjob list" where
  "dedup_step acc j =
     (case acc of (seen_ids, deduped_all) \<Rightarrow>
        if id' j \<notin> seen_ids then (insert (id' j) seen_ids, deduped_all @ [j])
        else (seen_ids, deduped_all))"

definition dedup :: "idjob list \<Rightarrow> string set \<times> idjob list" where
  "dedup js = foldl dedup_step ({}, []) js"

text \<open>
  \<open>run_scan\<close> returns the pair \<open>(deduped_all, deduped_new)\<close>; the file it leaves behind
  is the third component here.
\<close>

definition run_scan ::
  "runtime \<Rightarrow> config \<Rightarrow> world \<Rightarrow> seen_file \<Rightarrow> error + (idjob list \<times> idjob list \<times> seen_file)" where
  "run_scan rt cfg w f =
     (case load_seen f of
        Inl e \<Rightarrow> Inl e
      | Inr seen0 \<Rightarrow>
          (let st = scan rt cfg w seen0;
               (seen_ids, deduped_all) = dedup (all_jobs st);
               deduped_new = filter (\<lambda>j. id' j \<in> seen_ids) (new_jobs st)
           in Inr (deduped_all, deduped_new, save_seen (seen st))))"

subsection \<open>The notifier (\<open>send_email\<close>, and lines 189 to 194 of \<open>main\<close>)\<close>



text \<open>\<open>str_of_nat n\<close> is \<open>str(n)\<close> for \<open>n \<ge> 0\<close>; \<open>split_comma s\<close> is \<open>s.split(",")\<close>.\<close>

fun str_of_nat :: "nat \<Rightarrow> string" where
  "str_of_nat n =
     (if n < 10 then [''0123456789'' ! n]
      else str_of_nat (n div 10) @ [''0123456789'' ! (n mod 10)])"

declare str_of_nat.simps [simp del]





section \<open>Notions used in the statements\<close>

text \<open>
  \<open>first_occurrences S js\<close> keeps, in order, the first record of each identity key of
  \<open>js\<close> that is not in \<open>S\<close>; \<open>add_seen m js\<close> enters the records of \<open>js\<close> in a seen-set.
\<close>

fun first_occurrences :: "string set \<Rightarrow> idjob list \<Rightarrow> idjob list" where
  "first_occurrences S [] = []"
| "first_occurrences S (j # js) =
     (if id' j \<in> S then first_occurrences S js
      else j # first_occurrences (insert (id' j) S) js)"

definition add_seen :: "pydict \<Rightarrow> idjob list \<Rightarrow> pydict" where
  "add_seen m js = foldl (\<lambda>m j. m(id' j \<mapsto> scraped_at j)) m js"

text \<open>\<open>appended st ks st'\<close>: the loops went from \<open>st\<close> to \<open>st'\<close> by recording the jobs \<open>ks\<close>.\<close>

definition appended :: "scan_state \<Rightarrow> idjob list \<Rightarrow> scan_state \<Rightarrow> bool" where
  "appended st ks st' \<longleftrightarrow>
     all_jobs st' = all_jobs st @ ks \<and>
     new_jobs st' = new_jobs st @ first_occurrences (dom (seen st)) ks \<and>
     seen st' = add_seen (seen st) (first_occurrences (dom (seen st)) ks)"


text \<open>Two states, of two runs, after the same searches and with the same keys accumulated.\<close>

definition same_keys :: "scan_state \<Rightarrow> scan_state \<Rightarrow> bool" where
  "same_keys a b \<longleftrightarrow> searches a = searches b \<and> map id' (all_jobs a) = map id' (all_jobs b)"


definition hexdigits :: "char set" where
  "hexdigits = set ''0123456789abcdef''"

text \<open>The two lists a run returns, empty when the run raises.\<close>

definition returned_all :: "error + (idjob list \<times> idjob list \<times> seen_file) \<Rightarrow> idjob list" where
  "returned_all r = (case r of Inl e \<Rightarrow> [] | Inr (a, n, f) \<Rightarrow> a)"

definition returned_new :: "error + (idjob list \<times> idjob list \<times> seen_file) \<Rightarrow> idjob list" where
  "returned_new r = (case r of Inl e \<Rightarrow> [] | Inr (a, n, f) \<Rightarrow> n)"

section \<open>A concrete runtime and a concrete run\<close>

unbundle bit_operations_syntax

text \<open>
  To run the model on concrete inputs the runtime has to be given. \<open>hashlib\<close> is not
  part of the repository, so SHA-256 is written out here after FIPS 180-4, on the UTF-8
  encoding of the string; the general theorems do not depend on it. A \<open>char\<close> is a
  code point below 256. On such strings \<open>map lower_char\<close> is \<open>str.lower\<close> (the
  letters A to Z and the capital letters of Latin-1), and \<open>example_int\<close> is \<open>int\<close>:
  surrounding whitespace, an optional sign, decimal digits with single underscores
  between them.
\<close>

type_synonym w32 = "32 word"

definition rotr :: "nat \<Rightarrow> w32 \<Rightarrow> w32" where
  "rotr n x = drop_bit n x OR push_bit (32 - n) x"

definition Ch :: "w32 \<Rightarrow> w32 \<Rightarrow> w32 \<Rightarrow> w32" where
  "Ch x y z = (x AND y) XOR (NOT x AND z)"

definition Maj :: "w32 \<Rightarrow> w32 \<Rightarrow> w32 \<Rightarrow> w32" where
  "Maj x y z = (x AND y) XOR (x AND z) XOR (y AND z)"

definition Sigma0 :: "w32 \<Rightarrow> w32" where
  "Sigma0 x = rotr 2 x XOR rotr 13 x XOR rotr 22 x"

definition Sigma1 :: "w32 \<Rightarrow> w32" where
  "Sigma1 x = rotr 6 x XOR rotr 11 x XOR rotr 25 x"

definition sigma0 :: "w32 \<Rightarrow> w32" where
  "sigma0 x = rotr 7 x XOR rotr 18 x XOR drop_bit 3 x"

definition sigma1 :: "w32 \<Rightarrow> w32" where
  "sigma1 x = rotr 17 x XOR rotr 19 x XOR drop_bit 10 x"

definition K256 :: "w32 list" where
  "K256 =
     [0x428A2F98, 0x71374491, 0xB5C0FBCF, 0xE9B5DBA5,
      0x3956C25B, 0x59F111F1, 0x923F82A4, 0xAB1C5ED5,
      0xD807AA98, 0x12835B01, 0x243185BE, 0x550C7DC3,
      0x72BE5D74, 0x80DEB1FE, 0x9BDC06A7, 0xC19BF174,
      0xE49B69C1, 0xEFBE4786, 0x0FC19DC6, 0x240CA1CC,
      0x2DE92C6F, 0x4A7484AA, 0x5CB0A9DC, 0x76F988DA,
      0x983E5152, 0xA831C66D, 0xB00327C8, 0xBF597FC7,
      0xC6E00BF3, 0xD5A79147, 0x06CA6351, 0x14292967,
      0x27B70A85, 0x2E1B2138, 0x4D2C6DFC, 0x53380D13,
      0x650A7354, 0x766A0ABB, 0x81C2C92E, 0x92722C85,
      0xA2BFE8A1, 0xA81A664B, 0xC24B8B70, 0xC76C51A3,
      0xD192E819, 0xD6990624, 0xF40E3585, 0x106AA070,
      0x19A4C116, 0x1E376C08, 0x2748774C, 0x34B0BCB5,
      0x391C0CB3, 0x4ED8AA4A, 0x5B9CCA4F, 0x682E6FF3,
      0x748F82EE, 0x78A5636F, 0x84C87814, 0x8CC70208,
      0x90BEFFFA, 0xA4506CEB, 0xBEF9A3F7, 0xC67178F2]"

type_synonym hash = "w32 \<times> w32 \<times> w32 \<times> w32 \<times> w32 \<times> w32 \<times> w32 \<times> w32"

definition H256 :: hash where
  "H256 = (0x6A09E667, 0xBB67AE85, 0x3C6EF372, 0xA54FF53A, 0x510E527F, 0x9B05688C, 0x1F83D9AB, 0x5BE0CD19)"

text \<open>
  The message schedule is kept with its most recent word first; it grows by one word for
  each of the constants 16 to 63.
\<close>

primrec schedule256 :: "w32 list \<Rightarrow> w32 list \<Rightarrow> w32 list" where
  "schedule256 [] ws = ws"
| "schedule256 (k # ks) ws =
     schedule256 ks ((sigma1 (ws ! 1) + ws ! 6 + sigma0 (ws ! 14) + ws ! 15) # ws)"

definition shift_in :: "w32 \<Rightarrow> w32 \<Rightarrow> hash \<Rightarrow> hash" where
  "shift_in t1 t2 s =
     (case s of (a, b, c, d, e, f, g, h) \<Rightarrow> (t1 + t2, a, b, c, d + t1, e, f, g))"

definition round256 :: "w32 \<Rightarrow> w32 \<Rightarrow> hash \<Rightarrow> hash" where
  "round256 k w s =
     (case s of (a, b, c, d, e, f, g, h) \<Rightarrow>
        shift_in (h + Sigma1 e + Ch e f g + k + w) (Sigma0 a + Maj a b c) s)"

fun rounds256 :: "w32 list \<Rightarrow> w32 list \<Rightarrow> hash \<Rightarrow> hash" where
  "rounds256 (k # ks) (w # ws) s = rounds256 ks ws (round256 k w s)"
| "rounds256 ks ws s = s"

fun be_words :: "8 word list \<Rightarrow> w32 list" where
  "be_words (b0 # b1 # b2 # b3 # bs) =
     (push_bit 24 (ucast b0) OR push_bit 16 (ucast b1) OR push_bit 8 (ucast b2) OR ucast b3)
       # be_words bs"
| "be_words bs = []"

definition add_hash :: "hash \<Rightarrow> hash \<Rightarrow> hash" where
  "add_hash x y =
     (case x of (a, b, c, d, e, f, g, h) \<Rightarrow>
      case y of (a', b', c', d', e', f', g', h') \<Rightarrow>
        (a + a', b + b', c + c', d + d', e + e', f + f', g + g', h + h'))"

definition compress256 :: "hash \<Rightarrow> 8 word list \<Rightarrow> hash" where
  "compress256 h block =
     add_hash h (rounds256 K256 (rev (schedule256 (drop 16 K256) (rev (be_words block)))) h)"

fun blocks256 :: "hash \<Rightarrow> 8 word list \<Rightarrow> hash" where
  "blocks256 h [] = h"
| "blocks256 h (b # bs) = blocks256 (compress256 h (take 64 (b # bs))) (drop 63 bs)"

text \<open>
  Padding: the byte \<open>0x80\<close>, zero bytes up to 56 modulo 64, and the length of the
  message in bits as 8 bytes, most significant first.
\<close>

definition bit_length :: "8 word list \<Rightarrow> 64 word" where
  "bit_length m = fold (\<lambda>b n. n + 8) m 0"

definition be_bytes :: "64 word \<Rightarrow> 8 word list" where
  "be_bytes x = map (\<lambda>i. ucast (drop_bit (8 * i) x)) [7, 6, 5, 4, 3, 2, 1, 0]"

definition zeros :: "8 word list \<Rightarrow> nat" where
  "zeros m = unat ((- (bit_length m + 72)) AND 511) div 8"

definition pad256 :: "8 word list \<Rightarrow> 8 word list" where
  "pad256 m = m @ [0x80] @ replicate (zeros m) 0 @ be_bytes (bit_length m)"

definition sha256 :: "8 word list \<Rightarrow> hash" where
  "sha256 m = blocks256 H256 (pad256 m)"

definition hex_digit :: "nat \<Rightarrow> char" where
  "hex_digit n = ''0123456789abcdef'' ! (n mod 16)"

definition hex32 :: "w32 \<Rightarrow> string" where
  "hex32 w = map (\<lambda>i. hex_digit (unat (drop_bit (4 * i) w AND 15))) [7, 6, 5, 4, 3, 2, 1, 0]"

definition hexdigest :: "hash \<Rightarrow> string" where
  "hexdigest x =
     (case x of (a, b, c, d, e, f, g, h) \<Rightarrow>
        hex32 a @ hex32 b @ hex32 c @ hex32 d @ hex32 e @ hex32 f @ hex32 g @ hex32 h)"

definition utf8 :: "char \<Rightarrow> 8 word list" where
  "utf8 c = (if digit7 c then [0xC0 OR drop_bit 6 (of_char c), 0x80 OR (of_char c AND 0x3F)]
             else [of_char c])"

definition encode :: "string \<Rightarrow> 8 word list" where
  "encode s = concat (map utf8 s)"

definition sha256_hex :: "string \<Rightarrow> string" where
  "sha256_hex s = hexdigest (sha256 (encode s))"

definition lower_char :: "char \<Rightarrow> char" where
  "lower_char c =
     (if c \<in> set ''ABCDEFGHIJKLMNOPQRSTUVWXYZ'' \<or>
         (digit7 c \<and> digit6 c \<and> \<not> digit5 c \<and> c \<noteq> CHR 0xD7 \<and> c \<noteq> CHR 0xDF)
      then Char (digit0 c) (digit1 c) (digit2 c) (digit3 c) (digit4 c) True (digit6 c) (digit7 c)
      else c)"

definition is_space :: "char \<Rightarrow> bool" where
  "is_space c \<longleftrightarrow> c \<in> set [CHR 0x09, CHR 0x0A, CHR 0x0B, CHR 0x0C, CHR 0x0D, CHR 0x20,
                             CHR 0x85, CHR 0xA0]"

definition digit_val :: "char \<Rightarrow> nat option" where
  "digit_val c = map_of (zip ''0123456789'' [0, 1, 2, 3, 4, 5, 6, 7, 8, 9]) c"

fun digits_value :: "nat \<Rightarrow> string \<Rightarrow> nat option" where
  "digits_value acc [] = Some acc"
| "digits_value acc (c # cs) =
     (if c = CHR ''_''
      then (case cs of [] \<Rightarrow> None
                     | d # ds \<Rightarrow> if d = CHR ''_'' then None else digits_value acc cs)
      else (case digit_val c of None \<Rightarrow> None
                              | Some v \<Rightarrow> digits_value (10 * acc + v) cs))"

definition example_int :: "string \<Rightarrow> int option" where
  "example_int s =
     (let t = rev (dropWhile is_space (rev (dropWhile is_space s)));
          neg = (case t of [] \<Rightarrow> False | c # cs \<Rightarrow> c = CHR ''-'');
          body = (case t of [] \<Rightarrow> [] | c # cs \<Rightarrow> if c = CHR ''-'' \<or> c = CHR ''+'' then cs else t)
      in case body of
           [] \<Rightarrow> None
         | c # cs \<Rightarrow> if c = CHR ''_'' then None
                    else map_option (\<lambda>n. if neg then - int n else int n) (digits_value 0 body))"

definition example_runtime :: runtime where
  "example_runtime =
     \<lparr> sha256_hexdigest = sha256_hex, str_lower = map lower_char,
       int_of_str = example_int \<rparr>"

text \<open>
  One location, one query, one keyword. The provider answers the only search with four
  records: the first and the third have the same title, company and location and differ
  in the description; the second does not match the keyword.
\<close>

definition example_raw :: "string \<Rightarrow> string \<Rightarrow> string \<Rightarrow> raw_job" where
  "example_raw t c d =
     \<lparr> raw_title = Some t, raw_company_name = Some c, raw_location = Some ''Tifton, GA'',
       raw_description = Some d, raw_detected_extensions = None, raw_apply_options = None,
       raw_share_link = None, raw_via = None \<rparr>"

definition example_results :: "raw_job list" where
  "example_results =
     [example_raw ''PRN Infection Control Nurse'' ''Acme Health'' ''first posting'',
      example_raw ''Line Cook'' ''Diner'' ''kitchen'',
      example_raw ''PRN Infection Control Nurse'' ''Acme Health'' ''second posting'',
      example_raw ''Infection Control RN'' ''Beta Clinic'' ''days'']"

definition example_config :: config where
  "example_config =
     \<lparr> locations = Some [\<lparr> search_string = ''Tifton, GA'' \<rparr>],
       search_queries = Some [''infection control nurse''],
       keywords = Some [''infection control''],
       email_enabled = None, page_url = None \<rparr>"

definition example_world :: world where
  "example_world =
     \<lparr> environ = [''SERPAPI_KEY'' \<mapsto> ''key''],
       http_get = (\<lambda>n key q loc. if n = 0 then JsonBody (Some example_results) else RequestFailed),
       utc_now = (\<lambda>n. ''T'' @ str_of_nat n),
       smtp_failure = None,
       render_email = (\<lambda>a n. ''<html>'') \<rparr>"

definition example_job :: "string \<Rightarrow> string \<Rightarrow> string \<Rightarrow> string \<Rightarrow> string \<Rightarrow> idjob" where
  "example_job t c d ts k =
     \<lparr> title = t, company_name = c, location = ''Tifton, GA'', description_snippet = d,
       detected_extensions = [], apply_link = '''', via = '''', scraped_at = ts, id' = k \<rparr>"

definition job_a :: idjob where
  "job_a = example_job ''PRN Infection Control Nurse'' ''Acme Health'' ''first posting''
             ''T0'' ''0bab64220fed''"

definition job_b :: idjob where
  "job_b = example_job ''PRN Infection Control Nurse'' ''Acme Health'' ''second posting''
             ''T2'' ''0bab64220fed''"

definition job_d :: idjob where
  "job_d = example_job ''Infection Control RN'' ''Beta Clinic'' ''days'' ''T3'' ''f9c5096cece7''"

definition example_seen :: pydict where
  "example_seen = [''0bab64220fed'' \<mapsto> ''T0'', ''f9c5096cece7'' \<mapsto> ''T3'']"

text \<open>
  A second world with the same provider answers and a later clock; a raw record with no
  title and a description of 600 characters; a job whose title ends and whose description
  starts with a word of a two-word keyword; an environment with the mail credentials set;
  and one with none of them set, where \<open>SMTP_PORT\<close> is set to the empty string.
\<close>

definition later_world :: world where
  "later_world = example_world\<lparr>utc_now := (\<lambda>n. ''U'' @ str_of_nat n)\<rparr>"


definition spaced_job :: job where
  "spaced_job =
     \<lparr> title = ''Staff Nurse'', company_name = ''Acme Health'', location = ''Tifton, GA'',
       description_snippet = ''PRN shifts'', detected_extensions = [], apply_link = '''', via = '''',
       scraped_at = ''T0'' \<rparr>"

definition spaced_config :: config where
  "spaced_config = example_config\<lparr>keywords := Some [''nurse prn'']\<rparr>"

definition joined_config :: config where
  "joined_config = example_config\<lparr>keywords := Some [''nurseprn'']\<rparr>"



section \<open>Properties of the loops\<close>

lemma first_occurrences_append:
  "first_occurrences S (xs @ ys) =
     first_occurrences S xs @ first_occurrences (S \<union> id' ` set xs) ys"
  by (induction xs arbitrary: S) (auto simp: insert_absorb)

lemma first_occurrences_ids:
  "S \<union> id' ` set (first_occurrences S js) = S \<union> id' ` set js"
proof (induction js arbitrary: S)
  case Nil
  then show ?case by simp
next
  case (Cons j js)
  show ?case
  proof (cases "id' j \<in> S")
    case True
    then show ?thesis using Cons.IH [of S] by auto
  next
    case False
    then have "S \<union> id' ` set (first_occurrences S (j # js)) =
        insert (id' j) S \<union> id' ` set (first_occurrences (insert (id' j) S) js)"
      by simp
    also have "\<dots> = insert (id' j) S \<union> id' ` set js"
      by (rule Cons.IH)
    finally show ?thesis by simp
  qed
qed

lemma first_occurrences_subset: "set (first_occurrences S js) \<subseteq> set js"
  by (induction js arbitrary: S) auto

lemma first_occurrences_fresh: "j \<in> set (first_occurrences S js) \<Longrightarrow> id' j \<notin> S"
  by (induction js arbitrary: S) (auto split: if_splits)

lemma first_occurrences_distinct: "distinct (map id' (first_occurrences S js))"
  by (induction js arbitrary: S) (auto dest: first_occurrences_fresh)

lemma first_occurrences_filter:
  "first_occurrences (S \<union> T) js = filter (\<lambda>j. id' j \<notin> S) (first_occurrences T js)"
proof (induction js arbitrary: T)
  case Nil
  then show ?case by simp
next
  case (Cons j js)
  show ?case
  proof (cases "id' j \<in> T")
    case True
    then show ?thesis using Cons.IH [of T] by simp
  next
    case notT: False
    show ?thesis
    proof (cases "id' j \<in> S")
      case True
      then have "S \<union> T = S \<union> insert (id' j) T" by auto
      then show ?thesis using True notT Cons.IH [of "insert (id' j) T"] by simp
    next
      case False
      then show ?thesis using notT Cons.IH [of "insert (id' j) T"] by simp
    qed
  qed
qed

lemma first_occurrences_find:
  "j \<in> set (first_occurrences S js) \<Longrightarrow> find (\<lambda>x. id' x = id' j) js = Some j"
proof (induction js arbitrary: S)
  case Nil
  then show ?case by simp
next
  case (Cons a js)
  show ?case
  proof (cases "id' a = id' j")
    case True
    have "j = a"
    proof (cases "id' a \<in> S")
      case True
      with Cons.prems have "j \<in> set (first_occurrences S js)" by simp
      then have "id' j \<notin> S" by (rule first_occurrences_fresh)
      with True \<open>id' a = id' j\<close> show ?thesis by simp
    next
      case False
      with Cons.prems have "j = a \<or> j \<in> set (first_occurrences (insert (id' a) S) js)"
        by auto
      then show ?thesis
      proof
        assume "j \<in> set (first_occurrences (insert (id' a) S) js)"
        then have "id' j \<notin> insert (id' a) S" by (rule first_occurrences_fresh)
        with True show ?thesis by simp
      qed simp
    qed
    with True show ?thesis by simp
  next
    case False
    with Cons.prems have "j \<in> set (first_occurrences S js) \<or>
        j \<in> set (first_occurrences (insert (id' a) S) js)"
      by (auto split: if_splits)
    then have "find (\<lambda>x. id' x = id' j) js = Some j"
      using Cons.IH by blast
    with False show ?thesis by simp
  qed
qed

lemma first_occurrences_subseq: "subseq (first_occurrences S js) js"
  by (induction js arbitrary: S) auto

lemma first_occurrences_keys:
  "map id' (first_occurrences S js) = filter (\<lambda>k. k \<notin> S) (rev (remdups (rev (map id' js))))"
proof (induction js arbitrary: S rule: rev_induct)
  case Nil
  then show ?case by simp
next
  case (snoc j js)
  show ?case
  proof (cases "id' j \<in> id' ` set js")
    case True
    then show ?thesis
      using snoc.IH [of S] by (simp add: first_occurrences_append)
  next
    case False
    then show ?thesis
      using snoc.IH [of S] by (auto simp: first_occurrences_append)
  qed
qed

lemma dedup_loop:
  "foldl dedup_step (S, D) js = (S \<union> id' ` set js, D @ first_occurrences S js)"
  by (induction js arbitrary: S D) (auto simp: dedup_step_def)

lemma dedup_eq: "dedup js = (id' ` set js, first_occurrences {} js)"
  by (simp add: dedup_def dedup_loop)

lemma dom_add_seen: "dom (add_seen m js) = dom m \<union> id' ` set js"
  unfolding add_seen_def by (induction js arbitrary: m) auto

lemma add_seen_append: "add_seen m (xs @ ys) = add_seen (add_seen m xs) ys"
  by (simp add: add_seen_def)

lemma appended_refl: "all_jobs st' = all_jobs st \<Longrightarrow> new_jobs st' = new_jobs st \<Longrightarrow>
   seen st' = seen st \<Longrightarrow> appended st [] st'"
  by (simp add: appended_def add_seen_def)

lemma appended_trans:
  assumes "appended a xs b" and "appended b ys c"
  shows "appended a (xs @ ys) c"
proof -
  have "dom (seen b) = dom (seen a) \<union> id' ` set xs"
    using assms(1) by (simp add: appended_def dom_add_seen first_occurrences_ids)
  then show ?thesis
    using assms by (simp add: appended_def first_occurrences_append add_seen_append)
qed

lemma appended_record_job: "appended st [j] (record_job st j)"
  by (auto simp: appended_def record_job_def add_seen_def Let_def domIff)

lemma appended_foldl:
  assumes step: "\<And>s x. \<exists>ks. appended s ks (f s x)"
  shows "\<exists>ks. appended s ks (foldl f s xs)"
proof (induction xs arbitrary: s)
  case Nil
  show ?case using appended_refl [of s s] by auto
next
  case (Cons x xs)
  obtain ks1 where 1: "appended s ks1 (f s x)" using step by blast
  obtain ks2 where 2: "appended (f s x) ks2 (foldl f (f s x) xs)" using Cons.IH by blast
  from 1 2 have "appended s (ks1 @ ks2) (foldl f (f s x) xs)" by (rule appended_trans)
  then show ?case by auto
qed

lemma appended_process_raw: "\<exists>ks. appended st ks (process_raw rt cfg w st raw)"
proof -
  let ?st1 = "st\<lparr>clock_reads := Suc (clock_reads st)\<rparr>"
  have 0: "appended st [] ?st1" by (rule appended_refl) simp_all
  show ?thesis
  proof (cases "keyword_match rt cfg (job.extend (normalize_job (utc_now w (clock_reads st)) raw)
       (idjob.fields (job_id rt (job_dict (normalize_job (utc_now w (clock_reads st)) raw)))))")
    case True
    then obtain j where "process_raw rt cfg w st raw = record_job ?st1 j"
      by (simp add: process_raw_def Let_def)
    moreover have "appended ?st1 [j] (record_job ?st1 j)" by (rule appended_record_job)
    ultimately have "appended st ([] @ [j]) (process_raw rt cfg w st raw)"
      using 0 appended_trans by metis
    then show ?thesis by blast
  next
    case False
    then have "process_raw rt cfg w st raw = ?st1"
      by (simp add: process_raw_def Let_def)
    with 0 show ?thesis by auto
  qed
qed

lemma appended_scan_query: "\<exists>ks. appended st ks (scan_query rt cfg w loc st q)"
proof -
  let ?st1 = "st\<lparr>searches := Suc (searches st)\<rparr>"
  have 0: "appended st [] ?st1" by (rule appended_refl) simp_all
  obtain ks where "appended ?st1 ks (scan_query rt cfg w loc st q)"
    unfolding scan_query_def Let_def
    using appended_foldl [of "process_raw rt cfg w", OF appended_process_raw] by blast
  with 0 have "appended st ([] @ ks) (scan_query rt cfg w loc st q)"
    by (rule appended_trans)
  then show ?thesis by blast
qed

lemma appended_scan_location: "\<exists>ks. appended st ks (scan_location rt cfg w st loc)"
  unfolding scan_location_def
  by (rule appended_foldl) (rule appended_scan_query)

lemma appended_scan:
  "appended \<lparr>seen = seen0, all_jobs = [], new_jobs = [], searches = 0, clock_reads = 0\<rparr>
     (all_jobs (scan rt cfg w seen0)) (scan rt cfg w seen0)"
proof -
  let ?st0 = "\<lparr>seen = seen0, all_jobs = [], new_jobs = [], searches = 0, clock_reads = 0\<rparr>"
  obtain ks where ks: "appended ?st0 ks (scan rt cfg w seen0)"
    unfolding scan_def
    using appended_foldl [of "scan_location rt cfg w", OF appended_scan_location] by blast
  then have "all_jobs (scan rt cfg w seen0) = ks" by (simp add: appended_def)
  with ks show ?thesis by simp
qed

lemma scan_new_jobs:
  "new_jobs (scan rt cfg w seen0) = first_occurrences (dom seen0) (all_jobs (scan rt cfg w seen0))"
  using appended_scan [of seen0 rt cfg w] by (simp add: appended_def)

lemma scan_seen:
  "seen (scan rt cfg w seen0) = add_seen seen0 (new_jobs (scan rt cfg w seen0))"
  using appended_scan [of seen0 rt cfg w] by (simp add: appended_def)

lemma run_scan_result:
  assumes "load_seen f = Inr seen0"
  shows "run_scan rt cfg w f =
     Inr (first_occurrences {} (all_jobs (scan rt cfg w seen0)),
          first_occurrences (dom seen0) (all_jobs (scan rt cfg w seen0)),
          JsonObject (add_seen seen0 (first_occurrences (dom seen0) (all_jobs (scan rt cfg w seen0)))))"
proof -
  let ?acc = "all_jobs (scan rt cfg w seen0)"
  have "set (first_occurrences (dom seen0) ?acc) \<subseteq> set ?acc"
    by (rule first_occurrences_subset)
  then have "filter (\<lambda>j. id' j \<in> id' ` set ?acc) (first_occurrences (dom seen0) ?acc)
      = first_occurrences (dom seen0) ?acc"
    by (auto simp: filter_id_conv)
  then show ?thesis
    using assms
    by (simp add: run_scan_def dedup_eq Let_def scan_new_jobs [symmetric] scan_seen save_seen_def)
qed

lemma run_scan_returns:
  "(\<exists>r. run_scan rt cfg w f = Inr r) \<longleftrightarrow> f \<noteq> Malformed"
  by (cases f) (simp_all add: run_scan_def load_seen_def Let_def split: prod.splits)

lemma extend_fields [simp]:
  "title (job.extend j (idjob.fields k)) = title j"
  "company_name (job.extend j (idjob.fields k)) = company_name j"
  "location (job.extend j (idjob.fields k)) = location j"
  "description_snippet (job.extend j (idjob.fields k)) = description_snippet j"
  "detected_extensions (job.extend j (idjob.fields k)) = detected_extensions j"
  "apply_link (job.extend j (idjob.fields k)) = apply_link j"
  "via (job.extend j (idjob.fields k)) = via j"
  "scraped_at (job.extend j (idjob.fields k)) = scraped_at j"
  "id' (job.extend j (idjob.fields k)) = k"
  by (simp_all add: job.defs idjob.defs)

lemma job_dict_extend [simp]: "job_dict (job.extend j (idjob.fields k)) = job_dict j"
  by (simp add: job_dict_def)

lemma job_id_fields:
  "job_id rt (job_dict j) =
     take 12 (sha256_hexdigest rt (title j @ ''-'' @ company_name j @ ''-'' @ location j))"
  by (simp add: job_id_def job_dict_def dict_get_def)

lemma keyword_match_cong:
  "title a = title b \<Longrightarrow> description_snippet a = description_snippet b \<Longrightarrow>
   keyword_match rt cfg a = keyword_match rt cfg b"
  by (simp add: keyword_match_def)

lemma normalize_job_now:
  "title (normalize_job n raw) = title (normalize_job n' raw)"
  "company_name (normalize_job n raw) = company_name (normalize_job n' raw)"
  "location (normalize_job n raw) = location (normalize_job n' raw)"
  "description_snippet (normalize_job n raw) = description_snippet (normalize_job n' raw)"
  by (simp_all add: normalize_job_def)


lemma foldl_rel:
  assumes "R a b" and "\<And>a b x. R a b \<Longrightarrow> R (f a x) (g b x)"
  shows "R (foldl f a xs) (foldl g b xs)"
  using assms(1) by (induction xs arbitrary: a b) (auto intro: assms(2))

lemma all_jobs_record_job: "all_jobs (record_job st j) = all_jobs st @ [j]"
  by (simp add: record_job_def Let_def)

lemma process_raw_cases:
  "process_raw rt cfg w st raw = st\<lparr>clock_reads := Suc (clock_reads st)\<rparr> \<or>
   process_raw rt cfg w st raw =
     record_job (st\<lparr>clock_reads := Suc (clock_reads st)\<rparr>)
       (job.extend (normalize_job (utc_now w (clock_reads st)) raw)
          (idjob.fields (job_id rt (job_dict (normalize_job (utc_now w (clock_reads st)) raw)))))"
  by (simp add: process_raw_def Let_def)





lemma searches_record_job: "searches (record_job st j) = searches st"
  by (simp add: record_job_def Let_def)

lemma searches_process_raw: "searches (process_raw rt cfg w st raw) = searches st"
  using process_raw_cases [of rt cfg w st raw] by (auto simp: searches_record_job)

lemma all_jobs_process_raw:
  "all_jobs (process_raw rt cfg w st raw) =
     all_jobs st @
     (let j = normalize_job (utc_now w (clock_reads st)) raw
      in if keyword_match rt cfg j then [job.extend j (idjob.fields (job_id rt (job_dict j)))]
         else [])"
proof -
  let ?j = "normalize_job (utc_now w (clock_reads st)) raw"
  have "keyword_match rt cfg (job.extend ?j (idjob.fields (job_id rt (job_dict ?j)))) =
        keyword_match rt cfg ?j"
    by (rule keyword_match_cong) simp_all
  then show ?thesis
    by (simp add: process_raw_def Let_def all_jobs_record_job)
qed

lemma same_keys_process_raw:
  assumes "same_keys a b"
  shows "same_keys (process_raw rt cfg w a raw) (process_raw rt cfg w' b raw)"
proof -
  let ?ja = "normalize_job (utc_now w (clock_reads a)) raw"
  let ?jb = "normalize_job (utc_now w' (clock_reads b)) raw"
  note eqs = normalize_job_now [of "utc_now w (clock_reads a)" raw "utc_now w' (clock_reads b)"]
  have id: "job_id rt (job_dict ?ja) = job_id rt (job_dict ?jb)"
    by (simp add: job_id_fields eqs)
  have kw: "keyword_match rt cfg ?ja = keyword_match rt cfg ?jb"
    by (rule keyword_match_cong) (simp_all add: eqs)
  show ?thesis
    using assms id kw
    by (simp add: same_keys_def searches_process_raw all_jobs_process_raw Let_def)
qed

lemma same_keys_scan_query:
  assumes "same_keys a b"
    and "\<And>n q l. search_serpapi w' n q l = search_serpapi w n q l"
  shows "same_keys (scan_query rt cfg w loc a q) (scan_query rt cfg w' loc b q)"
proof -
  have s: "searches a = searches b" using assms(1) by (simp add: same_keys_def)
  have "same_keys (a\<lparr>searches := Suc (searches a)\<rparr>) (b\<lparr>searches := Suc (searches b)\<rparr>)"
    using assms(1) by (simp add: same_keys_def)
  then have "same_keys
      (foldl (process_raw rt cfg w) (a\<lparr>searches := Suc (searches a)\<rparr>)
         (search_serpapi w (searches a) q (search_string loc)))
      (foldl (process_raw rt cfg w') (b\<lparr>searches := Suc (searches b)\<rparr>)
         (search_serpapi w (searches a) q (search_string loc)))"
    by (rule foldl_rel) (rule same_keys_process_raw)
  then show ?thesis
    unfolding scan_query_def Let_def by (simp add: assms(2) s)
qed

lemma same_keys_scan_location:
  assumes "same_keys a b"
    and "\<And>n q l. search_serpapi w' n q l = search_serpapi w n q l"
  shows "same_keys (scan_location rt cfg w a loc) (scan_location rt cfg w' b loc)"
  unfolding scan_location_def
  using assms(1) by (rule foldl_rel) (rule same_keys_scan_query [OF _ assms(2)])

lemma same_keys_scan:
  assumes "\<And>n q l. search_serpapi w' n q l = search_serpapi w n q l"
  shows "map id' (all_jobs (scan rt cfg w s)) = map id' (all_jobs (scan rt cfg w' s'))"
proof -
  have "same_keys (scan rt cfg w s) (scan rt cfg w' s')"
    unfolding scan_def
    by (rule foldl_rel) (simp add: same_keys_def, rule same_keys_scan_location [OF _ assms])
  then show ?thesis by (simp add: same_keys_def)
qed

lemma first_occurrences_known:
  "id' ` set js \<subseteq> S \<Longrightarrow> first_occurrences S js = []"
  by (induction js) auto

lemma add_seen_Nil [simp]: "add_seen m [] = m"
  by (simp add: add_seen_def)

lemma run_scan_parts:
  assumes "run_scan rt cfg w f = Inr (A, N, f')" and "load_seen f = Inr seen0"
  shows "A = first_occurrences {} (all_jobs (scan rt cfg w seen0))"
    and "N = first_occurrences (dom seen0) (all_jobs (scan rt cfg w seen0))"
    and "f' = JsonObject (add_seen seen0 N)"
  using assms(1) unfolding run_scan_result [OF assms(2)] by auto

lemma add_seen_frame: "k \<notin> id' ` set js \<Longrightarrow> add_seen m js k = m k"
  unfolding add_seen_def by (induction js arbitrary: m) auto

lemma add_seen_Cons: "add_seen m (j # js) = add_seen (m(id' j \<mapsto> scraped_at j)) js"
  by (simp add: add_seen_def)

lemma add_seen_lookup:
  "distinct (map id' js) \<Longrightarrow> j \<in> set js \<Longrightarrow> add_seen m js (id' j) = Some (scraped_at j)"
proof (induction js arbitrary: m)
  case Nil
  then show ?case by simp
next
  case (Cons a js)
  show ?case
  proof (cases "j = a")
    case True
    have "id' a \<notin> id' ` set js" using Cons.prems(1) by auto
    then show ?thesis using True by (simp add: add_seen_Cons add_seen_frame)
  next
    case False
    with Cons.prems have "j \<in> set js" "distinct (map id' js)" by auto
    then show ?thesis by (simp add: add_seen_Cons Cons.IH)
  qed
qed

lemma find_distinct_key:
  "distinct (map id' xs) \<Longrightarrow> j \<in> set xs \<Longrightarrow> find (\<lambda>x. id' x = id' j) xs = Some j"
  by (induction xs) (auto simp: image_iff)

lemma starts_with_prefix: "starts_with p s \<longleftrightarrow> prefix p s"
  by (induction p s rule: starts_with.induct) auto

lemma contains_sublist: "contains p s \<longleftrightarrow> sublist p s"
  by (induction s) (auto simp: starts_with_prefix sublist_Cons_right)

lemma py_any_iff: "py_any bs \<longleftrightarrow> True \<in> set bs"
  by (induction bs) auto

section \<open>The concrete run, evaluated\<close>

lemma hex32_wf: "length (hex32 w) = 8 \<and> set (hex32 w) \<subseteq> hexdigits"
proof -
  have "hex_digit n \<in> hexdigits" for n
  proof -
    have "n mod 16 < length ''0123456789abcdef''" by simp
    then have "''0123456789abcdef'' ! (n mod 16) \<in> set ''0123456789abcdef''"
      by (rule nth_mem)
    then show ?thesis by (simp only: hex_digit_def hexdigits_def)
  qed
  then show ?thesis by (simp add: hex32_def)
qed

lemma sha256_hex_wf:
  "length (sha256_hex s) = 64 \<and> set (sha256_hex s) \<subseteq> hexdigits"
proof -
  obtain a b c d r where "sha256 (encode s) = (a, b, c, d, r)"
    by (metis prod_cases5)
  moreover obtain e f g h where "r = (e, f, g, h)"
    by (metis prod_cases4)
  ultimately have "sha256 (encode s) = (a, b, c, d, e, f, g, h)" by simp
  then show ?thesis
    using hex32_wf [of a] hex32_wf [of b] hex32_wf [of c] hex32_wf [of d]
      hex32_wf [of e] hex32_wf [of f] hex32_wf [of g] hex32_wf [of h]
    by (simp add: sha256_hex_def hexdigest_def)
qed

text \<open>
  The digests of the two identity strings of the concrete run, computed by the
  definitions; \<open>hashlib.sha256\<close> gives the same digits.
\<close>

lemma sha256_hex_abc:
  "sha256_hex ''abc'' = ''ba7816bf8f01cfea414140de5dae2223b00361a396177a9cb410ff61f20015ad''"
  by code_simp

lemma sha256_hex_a:
  "take 12 (sha256_hex ''PRN Infection Control Nurse-Acme Health-Tifton, GA'') = ''0bab64220fed''"
  by code_simp

lemma sha256_hex_d:
  "take 12 (sha256_hex ''Infection Control RN-Beta Clinic-Tifton, GA'') = ''f9c5096cece7''"
  by code_simp

lemma example_search:
  "search_serpapi example_world 0 q l = example_results"
  by (simp add: search_serpapi_def SERPAPI_KEY_def dict_get_def example_world_def)

lemma example_key_a:
  "job_id example_runtime (job_dict (normalize_job now
      (example_raw ''PRN Infection Control Nurse'' ''Acme Health'' d))) = ''0bab64220fed''"
  by (simp add: job_id_fields normalize_job_def example_raw_def example_runtime_def
      sha256_hex_a sha256_hex_d)

lemma example_key_d:
  "job_id example_runtime (job_dict (normalize_job now
      (example_raw ''Infection Control RN'' ''Beta Clinic'' d))) = ''f9c5096cece7''"
  by (simp add: job_id_fields normalize_job_def example_raw_def example_runtime_def
      sha256_hex_a sha256_hex_d)

lemma example_match_a:
  "keyword_match example_runtime example_config
     (normalize_job now (example_raw ''PRN Infection Control Nurse'' ''Acme Health'' d))"
  by (simp add: keyword_match_def normalize_job_def example_raw_def example_runtime_def
      example_config_def lower_char_def)

lemma process_raw_eq:
  "process_raw rt cfg w st raw =
     (let j = normalize_job (utc_now w (clock_reads st)) raw;
          st1 = st\<lparr>clock_reads := Suc (clock_reads st)\<rparr>
      in if keyword_match rt cfg j
         then record_job st1 (job.extend j (idjob.fields (job_id rt (job_dict j))))
         else st1)"
proof -
  let ?j = "normalize_job (utc_now w (clock_reads st)) raw"
  have "keyword_match rt cfg (job.extend ?j (idjob.fields (job_id rt (job_dict ?j)))) =
        keyword_match rt cfg ?j"
    by (rule keyword_match_cong) simp_all
  then show ?thesis
    by (simp add: process_raw_def Let_def)
qed

lemma example_match_d:
  "keyword_match example_runtime example_config
     (normalize_job now (example_raw ''Infection Control RN'' ''Beta Clinic'' d))"
  by (simp add: keyword_match_def normalize_job_def example_raw_def example_runtime_def
      example_config_def lower_char_def)

lemma example_match_c:
  "\<not> keyword_match example_runtime example_config
     (normalize_job now (example_raw ''Line Cook'' ''Diner'' ''kitchen''))"
  by (simp add: keyword_match_def normalize_job_def example_raw_def example_runtime_def
      example_config_def lower_char_def)

lemma example_extend:
  "job.extend (normalize_job now (example_raw t c d)) (idjob.fields k) =
     example_job t c (take 500 d) now k"
  by (simp add: normalize_job_def example_raw_def example_job_def job.defs idjob.defs)

lemma example_clock:
  "utc_now example_world 0 = ''T0''"
  "utc_now example_world (Suc 0) = ''T1''"
  "utc_now example_world (Suc (Suc 0)) = ''T2''"
  "utc_now example_world (Suc (Suc (Suc 0))) = ''T3''"
  by (simp_all add: example_world_def str_of_nat.simps)

lemma step1:
  "process_raw example_runtime example_config example_world
     \<lparr> seen = Map.empty, all_jobs = [], new_jobs = [], searches = Suc 0, clock_reads = 0 \<rparr>
     (example_raw ''PRN Infection Control Nurse'' ''Acme Health'' ''first posting'') =
   \<lparr> seen = [''0bab64220fed'' \<mapsto> ''T0''], all_jobs = [job_a], new_jobs = [job_a],
     searches = Suc 0, clock_reads = Suc 0 \<rparr>"
  by (simp add: process_raw_eq example_match_a example_key_a example_extend example_clock
      record_job_def Let_def job_a_def example_job_def)

lemma step2:
  "process_raw example_runtime example_config example_world
     \<lparr> seen = [''0bab64220fed'' \<mapsto> ''T0''], all_jobs = [job_a], new_jobs = [job_a],
       searches = Suc 0, clock_reads = Suc 0 \<rparr>
     (example_raw ''Line Cook'' ''Diner'' ''kitchen'') =
   \<lparr> seen = [''0bab64220fed'' \<mapsto> ''T0''], all_jobs = [job_a], new_jobs = [job_a],
     searches = Suc 0, clock_reads = Suc (Suc 0) \<rparr>"
  by (simp add: process_raw_eq example_match_c Let_def)

lemma step3:
  "process_raw example_runtime example_config example_world
     \<lparr> seen = [''0bab64220fed'' \<mapsto> ''T0''], all_jobs = [job_a], new_jobs = [job_a],
       searches = Suc 0, clock_reads = Suc (Suc 0) \<rparr>
     (example_raw ''PRN Infection Control Nurse'' ''Acme Health'' ''second posting'') =
   \<lparr> seen = [''0bab64220fed'' \<mapsto> ''T0''], all_jobs = [job_a, job_b], new_jobs = [job_a],
     searches = Suc 0, clock_reads = Suc (Suc (Suc 0)) \<rparr>"
  by (simp add: process_raw_eq example_match_a example_key_a example_extend example_clock
      record_job_def Let_def job_b_def example_job_def)

lemma step4:
  "process_raw example_runtime example_config example_world
     \<lparr> seen = [''0bab64220fed'' \<mapsto> ''T0''], all_jobs = [job_a, job_b], new_jobs = [job_a],
       searches = Suc 0, clock_reads = Suc (Suc (Suc 0)) \<rparr>
     (example_raw ''Infection Control RN'' ''Beta Clinic'' ''days'') =
   \<lparr> seen = example_seen, all_jobs = [job_a, job_b, job_d], new_jobs = [job_a, job_d],
     searches = Suc 0, clock_reads = Suc (Suc (Suc (Suc 0))) \<rparr>"
  by (simp add: process_raw_eq example_match_d example_key_d example_extend example_clock
      record_job_def Let_def job_d_def example_job_def example_seen_def)

lemma example_config_lists:
  "locations example_config = Some [\<lparr> search_string = ''Tifton, GA'' \<rparr>]"
  "search_queries example_config = Some [''infection control nurse'']"
  by (simp_all add: example_config_def)

lemma example_scan:
  "scan example_runtime example_config example_world Map.empty =
     \<lparr> seen = example_seen, all_jobs = [job_a, job_b, job_d], new_jobs = [job_a, job_d],
       searches = Suc 0, clock_reads = Suc (Suc (Suc (Suc 0))) \<rparr>"
  by (simp add: scan_def scan_location_def scan_query_def example_config_lists example_search
      example_results_def step1 step2 step3 step4)

lemma example_run:
  "run_scan example_runtime example_config example_world NoFile =
     Inr ([job_a, job_d], [job_a, job_d], JsonObject example_seen)"
  by (simp add: run_scan_def load_seen_def save_seen_def example_scan dedup_def dedup_step_def
      job_a_def job_b_def job_d_def example_job_def)

section \<open>The claims about \<open>run_scan\<close>\<close>

text \<open>
  Claim C1. For every run of \<open>run_scan\<close> that returns, the returned \<open>all_jobs\<close> list has
  no two records with the same identity key; its keys are the keys of the accumulated list
  in the order of their first occurrences (the library's \<open>remdups\<close> keeps last
  occurrences, hence the two reversals); the list is a subsequence of the accumulated list;
  and the record kept for a key is the first accumulated record with that key.
\<close>

theorem run_scan_all_jobs_deduplicated:
  assumes "run_scan rt cfg w f = Inr (A, N, f')" and "load_seen f = Inr seen0"
  shows "distinct (map id' A) \<and>
         map id' A = rev (remdups (rev (map id' (all_jobs (scan rt cfg w seen0))))) \<and>
         subseq A (all_jobs (scan rt cfg w seen0)) \<and>
         (\<forall>j\<in>set A. find (\<lambda>x. id' x = id' j) (all_jobs (scan rt cfg w seen0)) = Some j)"
proof -
  let ?acc = "all_jobs (scan rt cfg w seen0)"
  have A: "A = first_occurrences {} ?acc" using assms by (rule run_scan_parts)
  have "distinct (map id' A)" unfolding A by (rule first_occurrences_distinct)
  moreover have "map id' A = rev (remdups (rev (map id' ?acc)))"
    unfolding A by (simp add: first_occurrences_keys)
  moreover have "subseq A ?acc" unfolding A by (rule first_occurrences_subseq)
  moreover have "\<forall>j\<in>set A. find (\<lambda>x. id' x = id' j) ?acc = Some j"
    unfolding A by (blast intro: first_occurrences_find)
  ultimately show ?thesis by blast
qed

theorem run_scan_all_jobs_deduplicated_witness:
  "distinct (map id' [job_a, job_d]) \<and>
   map id' [job_a, job_d] = rev (remdups (rev (map id' [job_a, job_b, job_d]))) \<and>
   subseq [job_a, job_d] [job_a, job_b, job_d] \<and>
   find (\<lambda>x. id' x = id' job_a) [job_a, job_b, job_d] = Some job_a \<and>
   find (\<lambda>x. id' x = id' job_d) [job_a, job_b, job_d] = Some job_d"
  using run_scan_all_jobs_deduplicated [OF example_run, of Map.empty]
  by (simp add: load_seen_def example_scan job_a_def job_b_def job_d_def example_job_def)

text \<open>
  Claim C2. For every run that returns, every identity key of the returned \<open>new_jobs\<close>
  is an identity key of the returned \<open>all_jobs\<close>, and no identity key of \<open>new_jobs\<close>
  was in the seen-set loaded at the start of the run.
\<close>

theorem run_scan_new_jobs_subset:
  assumes "run_scan rt cfg w f = Inr (A, N, f')" and "load_seen f = Inr seen0"
  shows "id' ` set N \<subseteq> id' ` set A \<and> (\<forall>j\<in>set N. seen0 (id' j) = None)"
proof -
  let ?acc = "all_jobs (scan rt cfg w seen0)"
  have A: "A = first_occurrences {} ?acc" and N: "N = first_occurrences (dom seen0) ?acc"
    using assms by (rule run_scan_parts)+
  have "id' ` set A = id' ` set ?acc"
    using first_occurrences_ids [of "{}" ?acc] unfolding A by simp
  moreover have "set N \<subseteq> set ?acc" unfolding N by (rule first_occurrences_subset)
  ultimately have "id' ` set N \<subseteq> id' ` set A" by blast
  moreover have "\<forall>j\<in>set N. seen0 (id' j) = None"
    unfolding N using first_occurrences_fresh [of _ "dom seen0" ?acc] by (auto simp: domIff)
  ultimately show ?thesis by blast
qed

theorem run_scan_new_jobs_subset_witness:
  "id' ` set (returned_new (run_scan example_runtime example_config example_world NoFile))
     \<subseteq> id' ` set (returned_all (run_scan example_runtime example_config example_world NoFile)) \<and>
   returned_new (run_scan example_runtime example_config example_world NoFile) = [job_a, job_d] \<and>
   Map.empty (id' job_a) = (None :: string option) \<and>
   Map.empty (id' job_d) = (None :: string option)"
  using run_scan_new_jobs_subset [OF example_run, of Map.empty]
  by (simp add: load_seen_def example_run returned_all_def returned_new_def)

text \<open>
  Claim C10. For every run that returns, the returned \<open>new_jobs\<close> has no two records with
  the same identity key, each of its records is a record of the returned \<open>all_jobs\<close>
  (\<open>new_jobs\<close> is \<open>all_jobs\<close> restricted to the keys absent from the loaded seen-set),
  and each is the first accumulated record with its key, the one deduplication retains.
\<close>

theorem run_scan_new_jobs_records:
  assumes "run_scan rt cfg w f = Inr (A, N, f')" and "load_seen f = Inr seen0"
  shows "distinct (map id' N) \<and> set N \<subseteq> set A \<and>
         N = filter (\<lambda>j. seen0 (id' j) = None) A \<and>
         (\<forall>j\<in>set N. find (\<lambda>x. id' x = id' j) (all_jobs (scan rt cfg w seen0)) = Some j \<and>
                     find (\<lambda>x. id' x = id' j) A = Some j)"
proof -
  let ?acc = "all_jobs (scan rt cfg w seen0)"
  have A: "A = first_occurrences {} ?acc" and N: "N = first_occurrences (dom seen0) ?acc"
    using assms by (rule run_scan_parts)+
  have filt: "N = filter (\<lambda>j. seen0 (id' j) = None) A"
    using first_occurrences_filter [of "dom seen0" "{}" ?acc] unfolding A N
    by (simp add: domIff)
  have d: "distinct (map id' N)" unfolding N by (rule first_occurrences_distinct)
  have sub: "set N \<subseteq> set A" using filt by auto
  have first: "find (\<lambda>x. id' x = id' j) ?acc = Some j" if "j \<in> set N" for j
    using that unfolding N by (rule first_occurrences_find)
  have kept: "find (\<lambda>x. id' x = id' j) A = Some j" if "j \<in> set N" for j
  proof (rule find_distinct_key)
    show "distinct (map id' A)" unfolding A by (rule first_occurrences_distinct)
    show "j \<in> set A" using that sub by blast
  qed
  show ?thesis using d sub filt first kept by blast
qed

theorem run_scan_new_jobs_records_witness:
  "distinct (map id' [job_a, job_d]) \<and> set [job_a, job_d] \<subseteq> set [job_a, job_d] \<and>
   [job_a, job_d] = filter (\<lambda>j. Map.empty (id' j) = (None :: string option)) [job_a, job_d] \<and>
   find (\<lambda>x. id' x = id' job_a) [job_a, job_b, job_d] = Some job_a \<and>
   find (\<lambda>x. id' x = id' job_d) [job_a, job_b, job_d] = Some job_d \<and>
   find (\<lambda>x. id' x = id' job_a) [job_a, job_d] = Some job_a \<and>
   find (\<lambda>x. id' x = id' job_d) [job_a, job_d] = Some job_d"
  using run_scan_new_jobs_records [OF example_run, of Map.empty]
  by (simp add: load_seen_def example_scan job_a_def job_b_def job_d_def example_job_def)

text \<open>
  Claim C8. For every run that returns, the seen-set written at the end extends the one
  loaded at the start: every old entry is kept with its value, the new keys are exactly
  the keys of \<open>new_jobs\<close>, none of which was present at the start, and each is mapped
  to the \<open>scraped_at\<close> of its record in \<open>new_jobs\<close>.
\<close>

theorem run_scan_seen_set_grows:
  assumes "run_scan rt cfg w f = Inr (A, N, f')" and "load_seen f = Inr seen0"
  shows "\<exists>seen'. f' = JsonObject seen' \<and> seen0 \<subseteq>\<^sub>m seen' \<and>
           dom seen' = dom seen0 \<union> id' ` set N \<and> dom seen0 \<inter> id' ` set N = {} \<and>
           (\<forall>j\<in>set N. seen' (id' j) = Some (scraped_at j))"
proof -
  let ?acc = "all_jobs (scan rt cfg w seen0)"
  have N: "N = first_occurrences (dom seen0) ?acc" and f': "f' = JsonObject (add_seen seen0 N)"
    using assms by (rule run_scan_parts)+
  have fresh: "dom seen0 \<inter> id' ` set N = {}"
    unfolding N using first_occurrences_fresh [of _ "dom seen0" ?acc] by auto
  have "add_seen seen0 N k = seen0 k" if "k \<in> dom seen0" for k
    using that fresh by (intro add_seen_frame) auto
  then have "seen0 \<subseteq>\<^sub>m add_seen seen0 N"
    by (simp add: map_le_def)
  moreover have "dom (add_seen seen0 N) = dom seen0 \<union> id' ` set N" by (rule dom_add_seen)
  moreover have "\<forall>j\<in>set N. add_seen seen0 N (id' j) = Some (scraped_at j)"
    using first_occurrences_distinct [of "dom seen0" ?acc] unfolding N [symmetric]
    by (auto intro: add_seen_lookup)
  ultimately show ?thesis using f' fresh by blast
qed

theorem run_scan_seen_set_grows_witness:
  "\<exists>seen'. JsonObject example_seen = JsonObject seen' \<and> Map.empty \<subseteq>\<^sub>m seen' \<and>
     dom seen' = dom (Map.empty :: pydict) \<union> id' ` set [job_a, job_d] \<and>
     dom (Map.empty :: pydict) \<inter> id' ` set [job_a, job_d] = {} \<and>
     seen' (id' job_a) = Some (scraped_at job_a) \<and>
     seen' (id' job_d) = Some (scraped_at job_d)"
  using run_scan_seen_set_grows [OF example_run, of Map.empty]
  by (simp add: load_seen_def)


text \<open>
  Claim C4. When a run returns and a second run starts from the file the first one
  saved, with every search of the provider answering as in the first run (the clock may
  differ), the second run returns, its \<open>new_jobs\<close> is empty, it saves the same file,
  and its \<open>all_jobs\<close> has the keys of the first run's.
\<close>

theorem run_scan_idempotent_new:
  assumes run: "run_scan rt cfg w f = Inr (A, N, f')"
    and same: "\<forall>n q l. search_serpapi w2 n q l = search_serpapi w n q l"
  shows "\<exists>A2. run_scan rt cfg w2 f' = Inr (A2, [], f') \<and> map id' A2 = map id' A"
proof -
  obtain seen0 where load: "load_seen f = Inr seen0"
    using run by (cases f) (simp_all add: run_scan_def load_seen_def)
  let ?acc = "all_jobs (scan rt cfg w seen0)"
  have A: "A = first_occurrences {} ?acc" and N: "N = first_occurrences (dom seen0) ?acc"
    and f': "f' = JsonObject (add_seen seen0 N)"
    using run load by (rule run_scan_parts)+
  let ?seen1 = "add_seen seen0 N"
  let ?acc2 = "all_jobs (scan rt cfg w2 ?seen1)"
  have load2: "load_seen f' = Inr ?seen1" by (simp add: f' load_seen_def)
  have keys: "map id' ?acc = map id' ?acc2"
    using same by (intro same_keys_scan) simp
  have "dom ?seen1 = dom seen0 \<union> id' ` set ?acc"
    unfolding N by (simp add: dom_add_seen first_occurrences_ids)
  moreover have "id' ` set ?acc2 = id' ` set ?acc"
    using keys by (metis list.set_map)
  ultimately have "id' ` set ?acc2 \<subseteq> dom ?seen1" by blast
  then have new2: "first_occurrences (dom ?seen1) ?acc2 = []"
    by (rule first_occurrences_known)
  have "run_scan rt cfg w2 f' = Inr (first_occurrences {} ?acc2, [], f')"
    unfolding run_scan_result [OF load2] new2 by (simp add: f')
  moreover have "map id' (first_occurrences {} ?acc2) = map id' A"
    unfolding A by (simp add: first_occurrences_keys keys)
  ultimately show ?thesis by blast
qed

theorem run_scan_idempotent_new_witness:
  "returned_new (run_scan example_runtime example_config later_world (JsonObject example_seen)) = [] \<and>
   map id' (returned_all (run_scan example_runtime example_config later_world (JsonObject example_seen)))
     = map id' [job_a, job_d]"
proof -
  have "\<forall>n q l. search_serpapi later_world n q l = search_serpapi example_world n q l"
    by (simp add: search_serpapi_def SERPAPI_KEY_def later_world_def)
  from run_scan_idempotent_new [OF example_run this]
  show ?thesis by (auto simp: returned_new_def returned_all_def)
qed




section \<open>The claims about the parts\<close>

text \<open>
  Claim C5. \<open>job_id\<close> depends only on the entries \<open>title\<close>, \<open>company_name\<close> and
  \<open>location\<close> of its argument: two dictionaries that agree on them have the same key.
  The key is the first 12 characters of the digest of \<open>title-company_name-location\<close>, an
  absent entry counting as the empty string; when the digest function returns 64
  hexadecimal digits the key has 12 characters, all hexadecimal digits, and with SHA-256
  as the digest function it does.
\<close>

theorem job_id_identity_key:
  "(a ''title'' = b ''title'' \<and> a ''company_name'' = b ''company_name'' \<and>
      a ''location'' = b ''location'' \<longrightarrow> job_id rt a = job_id rt b) \<and>
   job_id rt (job_dict j) =
     take 12 (sha256_hexdigest rt (title j @ ''-'' @ company_name j @ ''-'' @ location j)) \<and>
   job_id rt [''title'' \<mapsto> t, ''company_name'' \<mapsto> c, ''location'' \<mapsto> l] =
     take 12 (sha256_hexdigest rt (t @ ''-'' @ c @ ''-'' @ l)) \<and>
   job_id rt [''company_name'' \<mapsto> c, ''location'' \<mapsto> l] =
     take 12 (sha256_hexdigest rt (''-'' @ c @ ''-'' @ l)) \<and>
   job_id rt [''title'' \<mapsto> t, ''location'' \<mapsto> l] =
     take 12 (sha256_hexdigest rt (t @ ''--'' @ l)) \<and>
   job_id rt [''title'' \<mapsto> t, ''company_name'' \<mapsto> c] =
     take 12 (sha256_hexdigest rt (t @ ''-'' @ c @ ''-'')) \<and>
   job_id rt Map.empty = take 12 (sha256_hexdigest rt ''--'') \<and>
   ((\<forall>s. length (sha256_hexdigest rt s) = 64 \<and> set (sha256_hexdigest rt s) \<subseteq> hexdigits)
      \<longrightarrow> length (job_id rt a) = 12 \<and> set (job_id rt a) \<subseteq> hexdigits) \<and>
   length (job_id (rt\<lparr>sha256_hexdigest := sha256_hex\<rparr>) a) = 12 \<and>
   set (job_id (rt\<lparr>sha256_hexdigest := sha256_hex\<rparr>) a) \<subseteq> hexdigits"
proof -
  have 1: "a ''title'' = b ''title'' \<and> a ''company_name'' = b ''company_name'' \<and>
      a ''location'' = b ''location'' \<longrightarrow> job_id rt a = job_id rt b"
    by (simp add: job_id_def dict_get_def)
  have 2: "(\<forall>s. length (sha256_hexdigest rt s) = 64 \<and> set (sha256_hexdigest rt s) \<subseteq> hexdigits)
      \<longrightarrow> length (job_id rt a) = 12 \<and> set (job_id rt a) \<subseteq> hexdigits"
  proof
    assume wf: "\<forall>s. length (sha256_hexdigest rt s) = 64 \<and> set (sha256_hexdigest rt s) \<subseteq> hexdigits"
    have "length (job_id rt a) = 12" using wf by (simp add: job_id_def Let_def)
    moreover have "set (job_id rt a) \<subseteq> hexdigits"
      using wf unfolding job_id_def Let_def by (meson set_take_subset subset_trans)
    ultimately show "length (job_id rt a) = 12 \<and> set (job_id rt a) \<subseteq> hexdigits" ..
  qed
  have 3: "length (job_id (rt\<lparr>sha256_hexdigest := sha256_hex\<rparr>) a) = 12"
    by (simp add: job_id_def Let_def sha256_hex_wf)
  have 4: "set (job_id (rt\<lparr>sha256_hexdigest := sha256_hex\<rparr>) a) \<subseteq> hexdigits"
    unfolding job_id_def Let_def
    using sha256_hex_wf by (simp, meson set_take_subset subset_trans)
  have 5: "job_id rt (job_dict j) =
      take 12 (sha256_hexdigest rt (title j @ ''-'' @ company_name j @ ''-'' @ location j))"
    by (rule job_id_fields)
  have 6: "job_id rt [''title'' \<mapsto> t, ''company_name'' \<mapsto> c, ''location'' \<mapsto> l] =
      take 12 (sha256_hexdigest rt (t @ ''-'' @ c @ ''-'' @ l)) \<and>
    job_id rt [''company_name'' \<mapsto> c, ''location'' \<mapsto> l] =
      take 12 (sha256_hexdigest rt (''-'' @ c @ ''-'' @ l)) \<and>
    job_id rt [''title'' \<mapsto> t, ''location'' \<mapsto> l] =
      take 12 (sha256_hexdigest rt (t @ ''--'' @ l)) \<and>
    job_id rt [''title'' \<mapsto> t, ''company_name'' \<mapsto> c] =
      take 12 (sha256_hexdigest rt (t @ ''-'' @ c @ ''-'')) \<and>
    job_id rt Map.empty = take 12 (sha256_hexdigest rt ''--'')"
    by (simp add: job_id_def dict_get_def)
  from 1 2 3 4 5 6 show ?thesis by blast
qed

theorem job_id_identity_key_witness:
  "job_id example_runtime (job_dict job_a) = job_id example_runtime (job_dict job_b) \<and>
   job_id example_runtime (job_dict job_a) = ''0bab64220fed'' \<and>
   length (job_id example_runtime (job_dict job_a)) = 12 \<and>
   set (job_id example_runtime (job_dict job_a)) \<subseteq> hexdigits"
proof -
  have wf: "\<forall>s. length (sha256_hexdigest example_runtime s) = 64 \<and>
      set (sha256_hexdigest example_runtime s) \<subseteq> hexdigits"
    by (simp add: example_runtime_def sha256_hex_wf)
  have same: "job_dict job_a ''title'' = job_dict job_b ''title'' \<and>
      job_dict job_a ''company_name'' = job_dict job_b ''company_name'' \<and>
      job_dict job_a ''location'' = job_dict job_b ''location''"
    by (simp add: job_dict_def job_a_def job_b_def example_job_def)
  have "job_id example_runtime (job_dict job_a) = ''0bab64220fed''"
    by (simp add: job_id_fields job_a_def example_job_def example_runtime_def sha256_hex_a)
  note key = this
  note inst = job_id_identity_key
    [of "job_dict job_a" "job_dict job_b" example_runtime job_a "''t''" "''c''" "''l''"]
  from inst same have "job_id example_runtime (job_dict job_a) = job_id example_runtime (job_dict job_b)"
    by blast
  moreover from inst wf have "length (job_id example_runtime (job_dict job_a)) = 12 \<and>
      set (job_id example_runtime (job_dict job_a)) \<subseteq> hexdigits"
    by blast
  ultimately show ?thesis using key by blast
qed



text \<open>
  Claim C6 says that a record is retained when a keyword occurs in the lower-cased
  concatenation of title and description snippet. The source joins the two with a space.
  For the title \<open>Staff Nurse\<close> and the snippet \<open>PRN shifts\<close>, the keyword
  \<open>nurse prn\<close> retains the record though it does not occur in the concatenation, and the
  keyword \<open>nurseprn\<close> occurs in the concatenation and does not retain the record.
\<close>

theorem keyword_filter_concatenation_counterexample:
  "keyword_match example_runtime spaced_config spaced_job \<and>
   \<not> sublist (str_lower example_runtime ''nurse prn'')
       (str_lower example_runtime (title spaced_job @ description_snippet spaced_job)) \<and>
   \<not> keyword_match example_runtime joined_config spaced_job \<and>
   sublist (str_lower example_runtime ''nurseprn'')
     (str_lower example_runtime (title spaced_job @ description_snippet spaced_job))"
  by (simp add: keyword_match_def spaced_config_def joined_config_def example_config_def
      spaced_job_def example_job_def example_runtime_def lower_char_def
      contains_sublist [symmetric])

text \<open>
  Claim C6, amended: a record is retained if and only if at least one configured keyword,
  lower-cased, is a contiguous part of the lower-cased string made of the title, one
  space, and the description snippet. With no keyword configured (the key absent, or an
  empty list) no record is retained. In the loop, a raw record is appended to \<open>all_jobs\<close>
  exactly when its normalized record passes this filter.
\<close>

theorem keyword_filter_spec:
  "(keyword_match rt cfg j \<longleftrightarrow>
      (\<exists>kw\<in>set (case keywords cfg of None \<Rightarrow> [] | Some ks \<Rightarrow> ks).
         sublist (str_lower rt kw) (str_lower rt (title j @ '' '' @ description_snippet j)))) \<and>
   (keywords cfg = None \<or> keywords cfg = Some [] \<longrightarrow> \<not> keyword_match rt cfg j) \<and>
   (all_jobs (process_raw rt cfg w st raw) \<noteq> all_jobs st \<longleftrightarrow>
      keyword_match rt cfg (normalize_job (utc_now w (clock_reads st)) raw))"
proof -
  have 1: "keyword_match rt cfg j \<longleftrightarrow>
      (\<exists>kw\<in>set (case keywords cfg of None \<Rightarrow> [] | Some ks \<Rightarrow> ks).
         sublist (str_lower rt kw) (str_lower rt (title j @ '' '' @ description_snippet j)))"
    by (auto simp: keyword_match_def py_any_iff contains_sublist)
  have 2: "keywords cfg = None \<or> keywords cfg = Some [] \<longrightarrow> \<not> keyword_match rt cfg j"
    by (auto simp: keyword_match_def)
  have 3: "all_jobs (process_raw rt cfg w st raw) \<noteq> all_jobs st \<longleftrightarrow>
      keyword_match rt cfg (normalize_job (utc_now w (clock_reads st)) raw)"
    by (simp add: all_jobs_process_raw Let_def)
  from 1 2 3 show ?thesis by blast
qed

theorem keyword_filter_spec_witness:
  "keyword_match example_runtime example_config job_a \<and>
   sublist (str_lower example_runtime ''infection control'')
     (str_lower example_runtime (title job_a @ '' '' @ description_snippet job_a)) \<and>
   \<not> keyword_match example_runtime (example_config\<lparr>keywords := Some []\<rparr>) job_a"
proof -
  have m: "keyword_match example_runtime example_config job_a"
    by (simp add: keyword_match_def example_config_def job_a_def example_job_def
        example_runtime_def lower_char_def)
  have s: "sublist (str_lower example_runtime ''infection control'')
     (str_lower example_runtime (title job_a @ '' '' @ description_snippet job_a))"
    using keyword_filter_spec [of example_runtime example_config job_a] m
    by (simp add: example_config_def)
  have "keywords (example_config\<lparr>keywords := Some []\<rparr>) = Some []" by simp
  with keyword_filter_spec [of example_runtime "example_config\<lparr>keywords := Some []\<rparr>" job_a]
  have "\<not> keyword_match example_runtime (example_config\<lparr>keywords := Some []\<rparr>) job_a"
    by blast
  with m s show ?thesis by blast
qed




end
